theory Spec2Isabelle
  imports Main "HOL-Library.Word" "HOL-Library.Sublist"
begin

section \<open>Text: JavaScript strings as sequences of UTF-16 code units\<close>

text \<open>
  A JavaScript string is a sequence of 16-bit code units; \<open>length\<close>, indexing
  (\<open>row[i]\<close>), the regular expressions without the \<open>u\<close> flag and \<open>includes\<close> all
  work on code units. The byte order mark U+FEFF and the peso sign U+20B1 are one code unit
  each.
\<close>

type_synonym unit16 = "16 word"
type_synonym jsstring = "unit16 list"

text \<open>ASCII literals of the source, written as HOL strings.\<close>

definition js :: "string \<Rightarrow> jsstring" where
  "js s = map of_char s"

definition in_range :: "unit16 \<Rightarrow> nat \<Rightarrow> nat \<Rightarrow> bool" where
  "in_range c lo hi = (lo \<le> unat c \<and> unat c \<le> hi)"

text \<open>
  \<open>String.prototype.trim\<close> removes WhiteSpace and LineTerminator code points at both
  ends: TAB, LF, VT, FF, CR, SP, NBSP, U+1680, U+2000..U+200A, U+2028, U+2029, U+202F,
  U+205F, U+3000 and U+FEFF.
\<close>

definition is_js_space :: "unit16 \<Rightarrow> bool" where
  "is_js_space c =
     (in_range c 0x09 0x0D \<or> c = 0x20 \<or> c = 0xA0 \<or> c = 0x1680 \<or> in_range c 0x2000 0x200A
      \<or> c = 0x2028 \<or> c = 0x2029 \<or> c = 0x202F \<or> c = 0x205F \<or> c = 0x3000 \<or> c = 0xFEFF)"

definition trim :: "jsstring \<Rightarrow> jsstring" where
  "trim s = rev (dropWhile is_js_space (rev (dropWhile is_js_space s)))"

text \<open>The character classes \<open>[0-9]\<close> and \<open>[a-z0-9]\<close>.\<close>

definition is_digit :: "unit16 \<Rightarrow> bool" where
  "is_digit c = in_range c 0x30 0x39"

definition is_lower_alnum :: "unit16 \<Rightarrow> bool" where
  "is_lower_alnum c = (in_range c 0x61 0x7A \<or> is_digit c)"

text \<open>
  \<open>toLowerCase\<close>, as far as the normalisation below can observe it. The Unicode lower
  case mapping sends A..Z to a..z, U+0130 to the two units U+0069 U+0307 and the Kelvin
  sign U+212A to k; every other code unit is mapped to units outside \<open>[a-z0-9]\<close> unless
  it is in \<open>[a-z0-9]\<close> itself and then unchanged. Those other units are kept as they
  are here, since the only use of \<open>toLowerCase\<close> in the parser is followed by the
  removal of everything outside \<open>[a-z0-9]\<close>.
\<close>

definition lower_unit :: "unit16 \<Rightarrow> jsstring" where
  "lower_unit c =
     (if in_range c 0x41 0x5A then [c + 0x20]
      else if c = 0x130 then [0x69, 0x307]
      else if c = 0x212A then [0x6B]
      else [c])"

definition toLowerCase :: "jsstring \<Rightarrow> jsstring" where
  "toLowerCase s = concat (map lower_unit s)"

text \<open>\<open>k.replace(/[^a-z0-9]/g, '')\<close>\<close>

definition strip_non_alnum :: "jsstring \<Rightarrow> jsstring" where
  "strip_non_alnum s = filter is_lower_alnum s"

text \<open>\<open>c.toLowerCase().replace(/[^a-z0-9]/g, '')\<close>\<close>

definition normalize :: "jsstring \<Rightarrow> jsstring" where
  "normalize c = strip_non_alnum (toLowerCase c)"

text \<open>\<open>cell.includes(k)\<close>: \<open>k\<close> occurs in \<open>cell\<close> as a contiguous run.\<close>

fun starts_with :: "jsstring \<Rightarrow> jsstring \<Rightarrow> bool" where
  "starts_with s [] = True"
| "starts_with [] (k # ks) = False"
| "starts_with (c # cs) (k # ks) = (c = k \<and> starts_with cs ks)"

fun includes_js :: "jsstring \<Rightarrow> jsstring \<Rightarrow> bool" where
  "includes_js [] k = (k = [])"
| "includes_js (c # cs) k = (starts_with (c # cs) k \<or> includes_js cs k)"

section \<open>The row tokenizer\<close>

text \<open>
  The loop of \<open>splitRow\<close> over the remaining characters of the row, with the fields
  pushed so far, the current cell and the \<open>inQuotes\<close> flag. \<open>row[i+1]\<close> past the end
  is \<open>undefined\<close>, which is not a quote.
\<close>

definition dquote :: unit16 where "dquote = 0x22"
definition comma :: unit16 where "comma = 0x2C"

fun splitRow_loop :: "jsstring \<Rightarrow> jsstring list \<Rightarrow> jsstring \<Rightarrow> bool \<Rightarrow> jsstring list" where
  "splitRow_loop [] result cell inQuotes = result @ [trim cell]"
| "splitRow_loop (c # rest) result cell inQuotes =
     (if c = dquote \<and> take 1 rest = [dquote] \<and> inQuotes
        then splitRow_loop (drop 1 rest) result (cell @ [dquote]) inQuotes
      else if c = dquote then splitRow_loop rest result cell (\<not> inQuotes)
      else if c = comma \<and> \<not> inQuotes then splitRow_loop rest (result @ [trim cell]) [] inQuotes
      else splitRow_loop rest result (cell @ [c]) inQuotes)"

definition splitRow :: "jsstring \<Rightarrow> jsstring list" where
  "splitRow row = splitRow_loop row [] [] False"

section \<open>The parser\<close>

record member =
  accountName :: jsstring
  accountNumber :: jsstring
  nextDueDate :: jsstring
  nextDueAmount :: jsstring
  bps :: jsstring
  overdueAmount :: jsstring

record parse_result =
  members :: "member list"
  sheetUpdateDate :: jsstring

text \<open>
  The only way the parser could throw: \<open>splitRow\<close> reads \<open>row.length\<close>, a TypeError
  when \<open>row\<close> is \<open>undefined\<close>, which is what an array read past the end gives.
\<close>

datatype error = TypeError

text \<open>\<open>text.replace\<close> of a leading U+FEFF: one byte order mark at the very start.\<close>

definition strip_bom :: "jsstring \<Rightarrow> jsstring" where
  "strip_bom text = (case text of [] \<Rightarrow> [] | c # cs \<Rightarrow> if c = 0xFEFF then cs else c # cs)"

text \<open>
  \<open>cleanText.split(/\r?\n/)\<close>: a line ends at LF, or at CR directly followed by LF; a CR
  alone stays in its line. The empty text gives one empty line.
\<close>

fun split_lines :: "jsstring \<Rightarrow> jsstring list" where
  "split_lines [] = [[]]"
| "split_lines (c # cs) =
     (if c = 0x0A then [] # split_lines cs
      else if c = 0x0D \<and> take 1 cs = [0x0A] then [] # split_lines (drop 1 cs)
      else (case split_lines cs of [] \<Rightarrow> [[c]] | l # ls \<Rightarrow> (c # l) # ls))"

definition non_empty_line :: "jsstring \<Rightarrow> bool" where
  "non_empty_line line = (length (trim line) > 0)"

definition allLines_of :: "jsstring \<Rightarrow> jsstring list" where
  "allLines_of text = filter non_empty_line (split_lines (strip_bom text))"

text \<open>The keys of the \<open>keywords\<close> and \<open>indices\<close> objects, in insertion order.\<close>

datatype field = AccountName | AccountNumber | NextDueDate | NextDueAmount | Bps | OverdueAmount

fun keywords_of :: "field \<Rightarrow> jsstring list" where
  "keywords_of AccountName = map js [''accountname'', ''membername'', ''customername'', ''name'',
     ''client'', ''fullname'', ''member'', ''subscriber'']"
| "keywords_of AccountNumber = map js [''accountnumber'', ''accountno'', ''accnum'', ''id'',
     ''memberid'', ''acc#'', ''account#'', ''member#'', ''ref'']"
| "keywords_of NextDueDate = map js [''nextduedate'', ''duedate'', ''nextdue'', ''billingdate'',
     ''expiry'', ''due'']"
| "keywords_of NextDueAmount = map js [''nextdueamount'', ''dueamount'', ''amountdue'', ''balance'',
     ''totaldue'', ''payable'']"
| "keywords_of Bps = map js [''bps'', ''brochuresales'', ''sales'', ''salesvolume'', ''volume'',
     ''commission'']"
| "keywords_of OverdueAmount = map js [''overdueamount'', ''overdue'', ''pastdue'', ''arrears'',
     ''delinquent'', ''latefee'']"

text \<open>\<open>Object.values(keywords).flat()\<close>\<close>

definition all_keywords :: "jsstring list" where
  "all_keywords = concat (map keywords_of
     [AccountName, AccountNumber, NextDueDate, NextDueAmount, Bps, OverdueAmount])"

text \<open>\<open>row.some(cell => cell.includes(k.replace(/[^a-z0-9]/g, '')))\<close>\<close>

definition keyword_hit :: "jsstring list \<Rightarrow> jsstring \<Rightarrow> bool" where
  "keyword_hit row k = list_ex (\<lambda>cell. includes_js cell (strip_non_alnum k)) row"

text \<open>The score of one line: the \<open>forEach\<close> over all keywords with \<open>score++\<close>.\<close>

definition row_score :: "jsstring \<Rightarrow> int" where
  "row_score line =
     (let row = map normalize (splitRow line)
      in foldl (\<lambda>score k. if keyword_hit row k then score + 1 else score) 0 all_keywords)"

text \<open>
  The header scan: \<open>headerRowIndex = 0\<close>, \<open>maxScore = -1\<close>, and for \<open>i\<close> from 0 below
  the bound the pair is replaced when the score of row \<open>i\<close> is strictly greater.
\<close>

definition scan_step :: "(nat \<Rightarrow> int) \<Rightarrow> nat \<times> int \<Rightarrow> nat \<Rightarrow> nat \<times> int" where
  "scan_step score st i =
     (case st of (headerRowIndex, maxScore) \<Rightarrow>
        if score i > maxScore then (i, score i) else (headerRowIndex, maxScore))"

definition header_scan :: "(nat \<Rightarrow> int) \<Rightarrow> nat \<Rightarrow> nat \<times> int" where
  "header_scan score n = foldl (scan_step score) (0, - 1) [0..<n]"

text \<open>
  The loop runs \<open>i\<close> below \<open>Math.min(allLines.length, 10)\<close>, so \<open>allLines[i]\<close> is
  always an element of the array there.
\<close>

definition headerRowIndex :: "jsstring list \<Rightarrow> nat" where
  "headerRowIndex allLines =
     fst (header_scan (\<lambda>i. row_score (allLines ! i)) (min (length allLines) 10))"

text \<open>\<open>Array.prototype.findIndex\<close>: the first index whose element satisfies the test, or -1.\<close>

fun findIndex_from :: "('a \<Rightarrow> bool) \<Rightarrow> 'a list \<Rightarrow> int \<Rightarrow> int" where
  "findIndex_from P [] i = - 1"
| "findIndex_from P (x # xs) i = (if P x then i else findIndex_from P xs (i + 1))"

definition array_findIndex :: "('a \<Rightarrow> bool) \<Rightarrow> 'a list \<Rightarrow> int" where
  "array_findIndex P xs = findIndex_from P xs 0"

text \<open>The two tests of the local \<open>findIndex\<close>.\<close>

definition exact_match :: "jsstring list \<Rightarrow> jsstring \<Rightarrow> bool" where
  "exact_match kList h = list_ex (\<lambda>k. h = strip_non_alnum k) kList"

definition substring_match :: "jsstring list \<Rightarrow> jsstring \<Rightarrow> bool" where
  "substring_match kList h = list_ex (\<lambda>k. includes_js h (strip_non_alnum k)) kList"

definition findIndex :: "jsstring list \<Rightarrow> jsstring list \<Rightarrow> int" where
  "findIndex headers kList =
     (let exact = array_findIndex (exact_match kList) headers
      in if exact \<noteq> - 1 then exact else array_findIndex (substring_match kList) headers)"

fun indices :: "jsstring list \<Rightarrow> field \<Rightarrow> int" where
  "indices headers AccountName =
     (if findIndex headers (keywords_of AccountName) \<noteq> - 1
      then findIndex headers (keywords_of AccountName) else 0)"
| "indices headers AccountNumber =
     (if findIndex headers (keywords_of AccountNumber) \<noteq> - 1
      then findIndex headers (keywords_of AccountNumber) else 1)"
| "indices headers NextDueDate = findIndex headers (keywords_of NextDueDate)"
| "indices headers NextDueAmount = findIndex headers (keywords_of NextDueAmount)"
| "indices headers Bps = findIndex headers (keywords_of Bps)"
| "indices headers OverdueAmount = findIndex headers (keywords_of OverdueAmount)"

text \<open>An array read \<open>values[idx]\<close>: \<open>None\<close> is \<open>undefined\<close>.\<close>

definition array_get :: "'a list \<Rightarrow> int \<Rightarrow> 'a option" where
  "array_get xs i = (if 0 \<le> i \<and> nat i < length xs then Some (xs ! nat i) else None)"

definition getVal :: "jsstring list \<Rightarrow> int \<Rightarrow> jsstring" where
  "getVal values idx =
     (if idx \<ge> 0 \<and> array_get values idx \<noteq> None then the (array_get values idx) else [])"

text \<open>\<open>v || d\<close> on strings: the empty string is falsy.\<close>

definition or_else :: "jsstring \<Rightarrow> jsstring \<Rightarrow> jsstring" where
  "or_else v d = (if v = [] then d else v)"

definition build_member :: "(field \<Rightarrow> int) \<Rightarrow> jsstring \<Rightarrow> member" where
  "build_member idx line =
     (let values = splitRow line
      in \<lparr> accountName = or_else (getVal values (idx AccountName)) (js ''N/A''),
           accountNumber = or_else (getVal values (idx AccountNumber)) (js ''N/A''),
           nextDueDate = or_else (getVal values (idx NextDueDate)) (js ''N/A''),
           nextDueAmount = or_else (getVal values (idx NextDueAmount)) (js ''0.00''),
           bps = or_else (getVal values (idx Bps)) (js ''0.00''),
           overdueAmount = or_else (getVal values (idx OverdueAmount)) (js ''0.00'') \<rparr>)"

text \<open>\<open>splitRow(allLines[i])\<close>, with the read past the end written out.\<close>

definition splitRow_at :: "jsstring list \<Rightarrow> nat \<Rightarrow> error + jsstring list" where
  "splitRow_at allLines i =
     (case array_get allLines (int i) of None \<Rightarrow> Inl TypeError | Some row \<Rightarrow> Inr (splitRow row))"

text \<open>\<open>firstRow[0] || 'N/A'\<close>\<close>

definition first_cell_or_na :: "jsstring list \<Rightarrow> jsstring" where
  "first_cell_or_na firstRow =
     (case array_get firstRow 0 of None \<Rightarrow> js ''N/A'' | Some c \<Rightarrow> or_else c (js ''N/A''))"

definition parseCSV :: "jsstring \<Rightarrow> error + parse_result" where
  "parseCSV text =
     (let allLines = allLines_of text
      in if length allLines < 1 then Inr \<lparr> members = [], sheetUpdateDate = js ''N/A'' \<rparr>
         else case splitRow_at allLines 0 of
                Inl e \<Rightarrow> Inl e
              | Inr firstRow \<Rightarrow>
                  (case splitRow_at allLines (headerRowIndex allLines) of
                     Inl e \<Rightarrow> Inl e
                   | Inr rawHeaders \<Rightarrow>
                       Inr \<lparr> members = map (build_member (indices (map normalize rawHeaders)))
                                          (drop (headerRowIndex allLines + 1) allLines),
                             sheetUpdateDate = first_cell_or_na firstRow \<rparr>))"

section \<open>The formatters\<close>

text \<open>\<open>cleanStr.substring(a, b)\<close> for \<open>a \<le> b\<close>.\<close>

definition substring :: "jsstring \<Rightarrow> nat \<Rightarrow> nat \<Rightarrow> jsstring" where
  "substring s a b = take (b - a) (drop a s)"

text \<open>\<open>/^\d{8}$/.test(s)\<close>: exactly eight code units, all of them in \<open>[0-9]\<close>.\<close>

definition test_d8 :: "jsstring \<Rightarrow> bool" where
  "test_d8 s = (length s = 8 \<and> list_all is_digit s)"

definition formatDate :: "jsstring \<Rightarrow> jsstring" where
  "formatDate dateStr =
     (if dateStr = [] \<or> dateStr = js ''N/A'' \<or> trim dateStr = [] then js ''N/A''
      else let cleanStr = filter is_digit dateStr
           in if length cleanStr = 8 \<and> test_d8 cleanStr
              then let y = substring cleanStr 0 4;
                       m = substring cleanStr 4 6;
                       d = substring cleanStr 6 8
                   in m @ js ''/'' @ d @ js ''/'' @ y
              else dateStr)"

text \<open>
  Numbers. \<open>parseFloat\<close> reads the longest prefix of its argument, after leading white
  space, that is a decimal literal (an optional sign, then \<open>Infinity\<close>, or digits with
  an optional fraction, or a dot and digits, each with an optional exponent) and returns
  its value; when there is no such prefix it returns NaN. The model keeps the literal that
  was read in place of its floating point value: \<open>Num lit\<close> is the Number with the value
  of \<open>lit\<close>, which is never NaN.
\<close>

datatype jsnum = NaN | Num jsstring

definition take_sign :: "jsstring \<Rightarrow> jsstring \<times> jsstring" where
  "take_sign s =
     (case s of [] \<Rightarrow> ([], [])
      | c # cs \<Rightarrow> if c = 0x2B \<or> c = 0x2D then ([c], cs) else ([], c # cs))"

definition exponent_part :: "jsstring \<Rightarrow> jsstring" where
  "exponent_part s =
     (case s of [] \<Rightarrow> []
      | c # cs \<Rightarrow>
          if c = 0x65 \<or> c = 0x45
          then (case take_sign cs of (sg, ds) \<Rightarrow>
                  if takeWhile is_digit ds \<noteq> [] then c # sg @ takeWhile is_digit ds else [])
          else [])"

definition unsigned_literal :: "jsstring \<Rightarrow> jsstring option" where
  "unsigned_literal s =
     (if starts_with s (js ''Infinity'') then Some (js ''Infinity'')
      else let ip = takeWhile is_digit s; r = dropWhile is_digit s
           in if ip \<noteq> []
              then (if take 1 r = [0x2E]
                    then Some (ip @ [0x2E] @ takeWhile is_digit (drop 1 r)
                               @ exponent_part (dropWhile is_digit (drop 1 r)))
                    else Some (ip @ exponent_part r))
              else if take 1 r = [0x2E] \<and> takeWhile is_digit (drop 1 r) \<noteq> []
                   then Some ([0x2E] @ takeWhile is_digit (drop 1 r)
                              @ exponent_part (dropWhile is_digit (drop 1 r)))
                   else None)"

definition parseFloat :: "jsstring \<Rightarrow> jsnum" where
  "parseFloat s =
     (case take_sign (dropWhile is_js_space s) of (sg, u) \<Rightarrow>
        (case unsigned_literal u of None \<Rightarrow> NaN | Some lit \<Rightarrow> Num (sg @ lit)))"

definition isNaN :: "jsnum \<Rightarrow> bool" where
  "isNaN v = (v = NaN)"

text \<open>\<open>amount.replace(/[^0-9.-]+/g, "")\<close>: only digits, dots and minus signs stay.\<close>

definition is_numeric_char :: "unit16 \<Rightarrow> bool" where
  "is_numeric_char c = (is_digit c \<or> c = 0x2E \<or> c = 0x2D)"

definition strip_non_numeric :: "jsstring \<Rightarrow> jsstring" where
  "strip_non_numeric s = filter is_numeric_char s"

text \<open>The argument of \<open>formatPeso\<close>: a string or a number, or the two values it guards against.\<close>

datatype amount = Undefined | Null | Str jsstring | Number jsnum

text \<open>The peso sign followed by \<open>0.00\<close>.\<close>

definition peso_sign :: unit16 where "peso_sign = 0x20B1"

definition peso_zero :: jsstring where
  "peso_zero = peso_sign # js ''0.00''"

text \<open>
  \<open>formatPeso\<close>. The number formatter
  \<open>new Intl.NumberFormat('en-PH', {minimumFractionDigits: 2, maximumFractionDigits: 2}).format\<close>
  belongs to the platform and is a parameter \<open>fmt\<close> here; it is only reached with a
  number that is not NaN.
\<close>

definition formatPeso :: "(jsnum \<Rightarrow> jsstring) \<Rightarrow> amount \<Rightarrow> jsstring" where
  "formatPeso fmt amount =
     (if amount = Undefined \<or> amount = Null then peso_zero
      else let val = (case amount of Str s \<Rightarrow> parseFloat (strip_non_numeric s)
                                    | Number n \<Rightarrow> n
                                    | _ \<Rightarrow> NaN)
           in if isNaN val then peso_zero else peso_sign # fmt val)"

section \<open>Auxiliary notions for the properties\<close>

text \<open>
  What the header scan has established after looking at rows \<open>0..<n\<close> once some row
  scored above the sentinel: the pair holds a row below \<open>n\<close> and its score, no row below
  \<open>n\<close> scores more, and every earlier row scores strictly less.
\<close>

definition scan_ok :: "(nat \<Rightarrow> int) \<Rightarrow> nat \<Rightarrow> nat \<times> int \<Rightarrow> bool" where
  "scan_ok sc n st =
     (fst st < n \<and> snd st = sc (fst st) \<and> - 1 < snd st
      \<and> (\<forall>j<n. sc j \<le> snd st) \<and> (\<forall>j<fst st. sc j < snd st))"

text \<open>
  The value of one field of a record as the specification words it: the cell at the mapped
  index when the index is not negative, the row has a cell there and the cell is not empty;
  the default otherwise.
\<close>

definition cell_or_default :: "jsstring list \<Rightarrow> int \<Rightarrow> jsstring \<Rightarrow> jsstring" where
  "cell_or_default row i d =
     (if 0 \<le> i \<and> nat i < length row \<and> row ! nat i \<noteq> [] then row ! nat i else d)"

text \<open>
  \<open>r\<close> is the index of the first element, from the left, that satisfies \<open>P\<close>.
\<close>

definition is_first_index :: "('a \<Rightarrow> bool) \<Rightarrow> 'a list \<Rightarrow> int \<Rightarrow> bool" where
  "is_first_index P xs r =
     (0 \<le> r \<and> nat r < length xs \<and> P (xs ! nat r) \<and> (\<forall>j<nat r. \<not> P (xs ! j)))"

text \<open>
  The score of a row as the specification words it: the number of distinct keywords, over
  the six lists together, whose normalisation occurs in the normalisation of some cell.
\<close>

definition keyword_matches :: "jsstring list \<Rightarrow> jsstring set" where
  "keyword_matches cells =
     {k \<in> set all_keywords. \<exists>cell\<in>set cells. sublist (strip_non_alnum k) (normalize cell)}"

definition distinct_keyword_count :: "jsstring \<Rightarrow> nat" where
  "distinct_keyword_count line = card (keyword_matches (splitRow line))"

text \<open>Two small inputs used to instantiate the properties below.\<close>

definition sample_text :: jsstring where
  "sample_text = js ''Name,Id,Due'' @ [0x0A] @ js ''Ann,7''"

definition sample_member :: member where
  "sample_member =
     \<lparr> accountName = js ''Ann'', accountNumber = js ''7'', nextDueDate = js ''N/A'',
       nextDueAmount = js ''0.00'', bps = js ''0.00'', overdueAmount = js ''0.00'' \<rparr>"

definition sample_result :: parse_result where
  "sample_result = \<lparr> members = [sample_member], sheetUpdateDate = js ''Name'' \<rparr>"

definition export_text :: jsstring where
  "export_text = js ''2024-05-01 Export'' @ [0x0A]
     @ js ''Member Name,Account No,Due Date,Due Amount'' @ [0x0A]
     @ js ''Jane Doe,1001,20240615,150.00''"

section \<open>Basic facts about the building blocks\<close>

lemma starts_with_prefix: "starts_with s k \<longleftrightarrow> prefix k s"
  by (induction s k rule: starts_with.induct) auto

lemma includes_js_sublist: "includes_js h k \<longleftrightarrow> sublist k h"
  by (induction h) (simp_all add: starts_with_prefix sublist_Cons_right)

lemma splitRow_loop_not_Nil: "splitRow_loop row result cell q \<noteq> []"
  by (induction row result cell q rule: splitRow_loop.induct) simp_all

lemma splitRow_not_Nil: "splitRow row \<noteq> []"
  by (simp add: splitRow_def splitRow_loop_not_Nil)

lemma header_scan_0: "header_scan sc 0 = (0, - 1)"
  by (simp add: header_scan_def)

lemma header_scan_Suc: "header_scan sc (Suc n) = scan_step sc (header_scan sc n) n"
  by (simp add: header_scan_def)

lemma scan_ok_first:
  assumes "\<forall>i<n. sc i \<le> - 1" and "- 1 < sc n"
  shows "scan_ok sc (Suc n) (n, sc n)"
proof -
  have "\<forall>j<n. sc j < sc n"
  proof (intro allI impI)
    fix j assume "j < n"
    with assms(1) have "sc j \<le> - 1" by blast
    with assms(2) show "sc j < sc n" by linarith
  qed
  moreover from this have "\<forall>j<Suc n. sc j \<le> sc n"
    by (simp add: less_Suc_eq less_imp_le)
  ultimately show ?thesis using assms(2) by (simp add: scan_ok_def)
qed

lemma scan_ok_better:
  assumes "scan_ok sc n (h, m)" and "m < sc n"
  shows "scan_ok sc (Suc n) (n, sc n)"
proof -
  from assms(1) have le: "\<forall>j<n. sc j \<le> m" and m: "- 1 < m" by (auto simp: scan_ok_def)
  have "\<forall>j<n. sc j < sc n"
  proof (intro allI impI)
    fix j assume "j < n"
    with le have "sc j \<le> m" by blast
    with assms(2) show "sc j < sc n" by linarith
  qed
  moreover from this have "\<forall>j<Suc n. sc j \<le> sc n"
    by (simp add: less_Suc_eq less_imp_le)
  moreover have "- 1 < sc n" using m assms(2) by linarith
  ultimately show ?thesis by (simp add: scan_ok_def)
qed

lemma scan_ok_keep:
  assumes "scan_ok sc n (h, m)" and "\<not> m < sc n"
  shows "scan_ok sc (Suc n) (h, m)"
  using assms by (auto simp: scan_ok_def less_Suc_eq)

lemma header_scan_inv:
  "((\<forall>i<n. sc i \<le> - 1) \<longrightarrow> header_scan sc n = (0, - 1))
   \<and> ((\<exists>i<n. - 1 < sc i) \<longrightarrow> scan_ok sc n (header_scan sc n))"
proof (induction n)
  case 0
  show ?case by (simp add: header_scan_0)
next
  case (Suc n)
  obtain h m where hm: "header_scan sc n = (h, m)" by (cases "header_scan sc n")
  have step: "header_scan sc (Suc n) = (if m < sc n then (n, sc n) else (h, m))"
    by (simp add: header_scan_Suc hm scan_step_def)
  show ?case
  proof (cases "\<forall>i<n. sc i \<le> - 1")
    case True
    with Suc hm have st: "h = 0" "m = - 1" by simp_all
    show ?thesis
    proof (cases "- 1 < sc n")
      case gt: True
      have "scan_ok sc (Suc n) (header_scan sc (Suc n))"
        using scan_ok_first [OF True gt] gt by (simp add: step st)
      moreover have "\<not> (\<forall>i<Suc n. sc i \<le> - 1)" using gt by (auto simp: not_le)
      ultimately show ?thesis by blast
    next
      case le: False
      then have "header_scan sc (Suc n) = (0, - 1)" by (simp add: step st)
      moreover have "\<not> (\<exists>i<Suc n. - 1 < sc i)" using True le by (auto simp: less_Suc_eq not_less)
      ultimately show ?thesis by blast
    qed
  next
    case False
    then have ex: "\<exists>i<n. - 1 < sc i" by (auto simp: not_le)
    with Suc hm have ok: "scan_ok sc n (h, m)" by simp
    have "scan_ok sc (Suc n) (header_scan sc (Suc n))"
      using scan_ok_better [OF ok] scan_ok_keep [OF ok] by (simp add: step)
    moreover have "\<not> (\<forall>i<Suc n. sc i \<le> - 1)" using False by (auto simp: less_Suc_eq)
    ultimately show ?thesis by blast
  qed
qed

lemma header_scan_none:
  "\<forall>i<n. sc i \<le> - 1 \<Longrightarrow> header_scan sc n = (0, - 1)"
  using header_scan_inv [of n sc] by blast

lemma header_scan_some:
  "\<exists>i<n. - 1 < sc i \<Longrightarrow> scan_ok sc n (header_scan sc n)"
  using header_scan_inv [of n sc] by blast

lemma foldl_count:
  "foldl (\<lambda>score k. if P k then score + 1 else score) (a::int) ks = a + int (length (filter P ks))"
  by (induction ks arbitrary: a) simp_all

lemma row_score_length:
  "row_score line = int (length (filter (keyword_hit (map normalize (splitRow line))) all_keywords))"
  by (simp add: row_score_def Let_def foldl_count)

lemma row_score_nonneg: "0 \<le> row_score line"
  by (simp add: row_score_length)

lemma headerRowIndex_ok:
  assumes "allLines \<noteq> []"
  shows "scan_ok (\<lambda>i. row_score (allLines ! i)) (min (length allLines) 10)
           (header_scan (\<lambda>i. row_score (allLines ! i)) (min (length allLines) 10))"
proof (rule header_scan_some)
  have "0 < min (length allLines) 10" using assms by simp
  moreover have "- 1 < row_score (allLines ! 0)"
    using row_score_nonneg [of "allLines ! 0"] by linarith
  ultimately show "\<exists>i<min (length allLines) 10. - 1 < row_score (allLines ! i)" by blast
qed

lemma headerRowIndex_less:
  assumes "allLines \<noteq> []"
  shows "headerRowIndex allLines < length allLines"
  using headerRowIndex_ok [OF assms] by (simp add: scan_ok_def headerRowIndex_def)

lemma findIndex_from_none:
  "\<not> list_ex P xs \<Longrightarrow> findIndex_from P xs i = - 1"
  by (induction xs arbitrary: i) simp_all

lemma findIndex_from_some:
  "list_ex P xs \<Longrightarrow>
   \<exists>j<length xs. findIndex_from P xs i = i + int j \<and> P (xs ! j) \<and> (\<forall>l<j. \<not> P (xs ! l))"
proof (induction xs arbitrary: i)
  case Nil
  then show ?case by simp
next
  case (Cons x xs)
  show ?case
  proof (cases "P x")
    case True
    then show ?thesis by (intro exI [of _ 0]) simp
  next
    case False
    with Cons.prems have "list_ex P xs" by simp
    from Cons.IH [OF this, of "i + 1"] obtain j where
      j: "j < length xs" "findIndex_from P xs (i + 1) = i + 1 + int j" "P (xs ! j)" "\<forall>l<j. \<not> P (xs ! l)"
      by blast
    show ?thesis
    proof (intro exI [of _ "Suc j"] conjI)
      show "Suc j < length (x # xs)" using j(1) by simp
      show "findIndex_from P (x # xs) i = i + int (Suc j)" using False j(2) by simp
      show "P ((x # xs) ! Suc j)" using j(3) by simp
      show "\<forall>l<Suc j. \<not> P ((x # xs) ! l)" using False j(4) by (auto simp: less_Suc_eq_0_disj)
    qed
  qed
qed

section \<open>Two evaluated inputs\<close>

lemma sample_lines: "allLines_of sample_text = [js ''Name,Id,Due'', js ''Ann,7'']"
  by code_simp

lemma sample_scores: "row_score (js ''Name,Id,Due'') = 3" "row_score (js ''Ann,7'') = 0"
  by code_simp+

lemma sample_header: "headerRowIndex [js ''Name,Id,Due'', js ''Ann,7''] = 0"
  by (simp add: headerRowIndex_def header_scan_def scan_step_def sample_scores upt_rec)

lemma sample_rows: "splitRow (js ''Name,Id,Due'') = [js ''Name'', js ''Id'', js ''Due'']"
  by code_simp

lemma sample_member_built:
  "build_member (indices [normalize (js ''Name''), normalize (js ''Id''), normalize (js ''Due'')])
     (js ''Ann,7'') = sample_member"
  by code_simp

lemma sample_first: "first_cell_or_na [js ''Name'', js ''Id'', js ''Due''] = js ''Name''"
  by (simp add: first_cell_or_na_def array_get_def or_else_def js_def)

lemma parseCSV_sample: "parseCSV sample_text = Inr sample_result"
  by (simp add: parseCSV_def Let_def sample_lines sample_header splitRow_at_def array_get_def
      sample_rows sample_member_built sample_first sample_result_def)

lemma sample_data_row: "splitRow (js ''Ann,7'') = [js ''Ann'', js ''7'']"
  by code_simp

lemma sample_first_line:
  "find (\<lambda>line. \<not> list_all is_js_space line) (split_lines (strip_bom sample_text))
     = Some (js ''Name,Id,Due'')"
  by code_simp

lemma sample_lines_not_Nil: "allLines_of sample_text \<noteq> []"
  by (simp add: sample_lines)

lemma export_lines:
  "allLines_of export_text = [js ''2024-05-01 Export'',
     js ''Member Name,Account No,Due Date,Due Amount'', js ''Jane Doe,1001,20240615,150.00'']"
  by code_simp

lemma export_scores:
  "row_score (js ''2024-05-01 Export'') = 0"
  "row_score (js ''Member Name,Account No,Due Date,Due Amount'') = 10"
  "row_score (js ''Jane Doe,1001,20240615,150.00'') = 0"
  by code_simp+

lemma export_header:
  "headerRowIndex [js ''2024-05-01 Export'',
     js ''Member Name,Account No,Due Date,Due Amount'', js ''Jane Doe,1001,20240615,150.00''] = 1"
  by (simp add: headerRowIndex_def header_scan_def scan_step_def export_scores upt_rec)

lemma export_rows:
  "splitRow (js ''2024-05-01 Export'') = [js ''2024-05-01 Export'']"
  "splitRow (js ''Member Name,Account No,Due Date,Due Amount'')
     = [js ''Member Name'', js ''Account No'', js ''Due Date'', js ''Due Amount'']"
  by code_simp+

lemma export_member:
  "build_member (indices [normalize (js ''Member Name''), normalize (js ''Account No''),
       normalize (js ''Due Date''), normalize (js ''Due Amount'')])
     (js ''Jane Doe,1001,20240615,150.00'')
   = \<lparr> accountName = js ''Jane Doe'', accountNumber = js ''1001'', nextDueDate = js ''20240615'',
       nextDueAmount = js ''150.00'', bps = js ''0.00'', overdueAmount = js ''0.00'' \<rparr>"
  by code_simp

lemma export_first: "first_cell_or_na [js ''2024-05-01 Export''] = js ''2024-05-01 Export''"
  by (simp add: first_cell_or_na_def array_get_def or_else_def js_def)

lemma export_lines_not_Nil: "allLines_of export_text \<noteq> []"
  by (simp add: export_lines)

lemma sample_headers_norm:
  "map normalize [js ''Name'', js ''Id'', js ''Due''] = [js ''name'', js ''id'', js ''due'']"
  by code_simp

lemma sample_due_exact: "exact_match (keywords_of NextDueDate) (js ''due'')"
  by code_simp

lemma sample_due_index: "indices [js ''name'', js ''id'', js ''due''] NextDueDate = 2"
  by code_simp

section \<open>The tokenizer on quoted fields\<close>

text \<open>
  Claim C3: the tokenizer honours quoted commas and doubled quotes: the line
  \<open>Name,"Doe, John",123\<close> gives the three fields \<open>Name\<close>, \<open>Doe, John\<close> and
  \<open>123\<close>, and in the line \<open>A,"She said ""hi""",B\<close> the second field is
  \<open>She said "hi"\<close>, with one quote character on each side of \<open>hi\<close>.
\<close>
theorem splitRow_quoted_fields:
  "splitRow (js ''Name,\"Doe, John\",123'') = [js ''Name'', js ''Doe, John'', js ''123'']
   \<and> splitRow (js ''A,\"She said \"\"hi\"\"\",B'') = [js ''A'', js ''She said \"hi\"'', js ''B'']"
  by code_simp

section \<open>Properties of the parser\<close>

lemma js_na_not_Nil: "js ''N/A'' \<noteq> []" "js ''0.00'' \<noteq> []"
  by (simp_all add: js_def)

lemma or_else_not_Nil: "d \<noteq> [] \<Longrightarrow> or_else v d \<noteq> []"
  by (simp add: or_else_def)

lemma parseCSV_empty:
  "allLines_of text = [] \<Longrightarrow> parseCSV text = Inr \<lparr> members = [], sheetUpdateDate = js ''N/A'' \<rparr>"
  by (simp add: parseCSV_def)

lemma splitRow_at_in_range:
  "i < length allLines \<Longrightarrow> splitRow_at allLines i = Inr (splitRow (allLines ! i))"
  by (simp add: splitRow_at_def array_get_def)

lemma parseCSV_nonempty:
  assumes "allLines_of text \<noteq> []"
  shows "parseCSV text =
    Inr \<lparr> members = map (build_member (indices (map normalize
                         (splitRow (allLines_of text ! headerRowIndex (allLines_of text))))))
                       (drop (headerRowIndex (allLines_of text) + 1) (allLines_of text)),
          sheetUpdateDate = first_cell_or_na (splitRow (allLines_of text ! 0)) \<rparr>"
proof -
  have "0 < length (allLines_of text)" using assms by simp
  then have "splitRow_at (allLines_of text) 0 = Inr (splitRow (allLines_of text ! 0))"
    by (rule splitRow_at_in_range)
  moreover have "splitRow_at (allLines_of text) (headerRowIndex (allLines_of text))
      = Inr (splitRow (allLines_of text ! headerRowIndex (allLines_of text)))"
    using headerRowIndex_less [OF assms] by (rule splitRow_at_in_range)
  ultimately show ?thesis using assms by (simp add: parseCSV_def Let_def)
qed

text \<open>
  Claim C2: for every input text (the empty text, arbitrary code units and one-character
  texts included) \<open>parseCSV\<close> returns a result, a list of records with a
  \<open>sheetUpdateDate\<close>; it never throws.
\<close>
theorem parseCSV_total: "\<exists>r. parseCSV text = Inr r"
proof (cases "allLines_of text = []")
  case True
  then show ?thesis by (simp add: parseCSV_empty)
next
  case False
  then show ?thesis by (simp add: parseCSV_nonempty)
qed

lemma build_member_non_empty:
  "accountName (build_member idx line) \<noteq> [] \<and> accountNumber (build_member idx line) \<noteq> []
   \<and> nextDueDate (build_member idx line) \<noteq> [] \<and> nextDueAmount (build_member idx line) \<noteq> []
   \<and> bps (build_member idx line) \<noteq> [] \<and> overdueAmount (build_member idx line) \<noteq> []"
  by (simp add: build_member_def Let_def or_else_not_Nil js_na_not_Nil)

text \<open>
  Claim C10: in every record of every parse result each of the six fields is a non-empty
  string.
\<close>
theorem member_fields_non_empty:
  assumes "parseCSV text = Inr r" and "m \<in> set (members r)"
  shows "accountName m \<noteq> [] \<and> accountNumber m \<noteq> [] \<and> nextDueDate m \<noteq> []
         \<and> nextDueAmount m \<noteq> [] \<and> bps m \<noteq> [] \<and> overdueAmount m \<noteq> []"
proof (cases "allLines_of text = []")
  case True
  with assms show ?thesis by (auto simp: parseCSV_empty)
next
  case False
  from assms(1) parseCSV_nonempty [OF False]
  have "members r = map (build_member (indices (map normalize
                         (splitRow (allLines_of text ! headerRowIndex (allLines_of text))))))
                       (drop (headerRowIndex (allLines_of text) + 1) (allLines_of text))"
    by auto
  with assms(2) obtain line where "m = build_member (indices (map normalize
                         (splitRow (allLines_of text ! headerRowIndex (allLines_of text))))) line"
    by auto
  then show ?thesis using build_member_non_empty [of _ line] by simp
qed

theorem member_fields_non_empty_witness:
  "parseCSV sample_text = Inr sample_result \<and> sample_member \<in> set (members sample_result)
   \<and> accountName sample_member \<noteq> [] \<and> accountNumber sample_member \<noteq> []
   \<and> nextDueDate sample_member \<noteq> [] \<and> nextDueAmount sample_member \<noteq> []
   \<and> bps sample_member \<noteq> [] \<and> overdueAmount sample_member \<noteq> []"
proof -
  have m: "sample_member \<in> set (members sample_result)" by (simp add: sample_result_def)
  from member_fields_non_empty [OF parseCSV_sample m] parseCSV_sample m show ?thesis by simp
qed

lemma getVal_or_else: "or_else (getVal values idx) d = cell_or_default values idx d"
  by (simp add: or_else_def getVal_def array_get_def cell_or_default_def)

lemma build_member_cells:
  "build_member idx line =
     \<lparr> accountName = cell_or_default (splitRow line) (idx AccountName) (js ''N/A''),
       accountNumber = cell_or_default (splitRow line) (idx AccountNumber) (js ''N/A''),
       nextDueDate = cell_or_default (splitRow line) (idx NextDueDate) (js ''N/A''),
       nextDueAmount = cell_or_default (splitRow line) (idx NextDueAmount) (js ''0.00''),
       bps = cell_or_default (splitRow line) (idx Bps) (js ''0.00''),
       overdueAmount = cell_or_default (splitRow line) (idx OverdueAmount) (js ''0.00'') \<rparr>"
  by (simp add: build_member_def Let_def getVal_or_else)

text \<open>
  Claim C6: when the text has a non-empty line, the records are in one-to-one, order
  preserving correspondence with the non-empty lines strictly after the header row, and
  each field of each record is the cell at the mapped index when that index is not
  negative, the row has a cell there and the cell is not empty, and the default of the
  field (\<open>N/A\<close> for the first three fields, \<open>0.00\<close> for the last three) otherwise.
\<close>
theorem one_record_per_data_line:
  assumes "parseCSV text = Inr r" and "allLines_of text \<noteq> []"
  shows "length (members r) = length (allLines_of text) - (headerRowIndex (allLines_of text) + 1)
    \<and> (\<forall>i<length (members r).
          members r ! i =
            (let row = splitRow (allLines_of text ! (headerRowIndex (allLines_of text) + 1 + i));
                 idx = indices (map normalize
                         (splitRow (allLines_of text ! headerRowIndex (allLines_of text))))
             in \<lparr> accountName = cell_or_default row (idx AccountName) (js ''N/A''),
                  accountNumber = cell_or_default row (idx AccountNumber) (js ''N/A''),
                  nextDueDate = cell_or_default row (idx NextDueDate) (js ''N/A''),
                  nextDueAmount = cell_or_default row (idx NextDueAmount) (js ''0.00''),
                  bps = cell_or_default row (idx Bps) (js ''0.00''),
                  overdueAmount = cell_or_default row (idx OverdueAmount) (js ''0.00'') \<rparr>))"
proof -
  let ?ls = "allLines_of text"
  let ?h = "headerRowIndex ?ls"
  let ?idx = "indices (map normalize (splitRow (?ls ! ?h)))"
  from assms(1) parseCSV_nonempty [OF assms(2)]
  have ms: "members r = map (build_member ?idx) (drop (?h + 1) ?ls)" by auto
  then have len: "length (members r) = length ?ls - (?h + 1)" by simp
  have "members r ! i = build_member ?idx (?ls ! (?h + 1 + i))" if "i < length (members r)" for i
    using that ms by simp
  then show ?thesis using len by (simp add: build_member_cells Let_def)
qed

theorem one_record_per_data_line_witness:
  "parseCSV sample_text = Inr sample_result \<and> allLines_of sample_text \<noteq> []
   \<and> length (members sample_result) = 1
   \<and> accountName (members sample_result ! 0) = cell_or_default [js ''Ann'', js ''7''] 0 (js ''N/A'')
   \<and> nextDueDate (members sample_result ! 0) = cell_or_default [js ''Ann'', js ''7''] 2 (js ''N/A'')"
proof -
  have idx: "indices [normalize (js ''Name''), normalize (js ''Id''), normalize (js ''Due'')] AccountName = 0"
    "indices [normalize (js ''Name''), normalize (js ''Id''), normalize (js ''Due'')] NextDueDate = 2"
    by code_simp+
  from one_record_per_data_line [OF parseCSV_sample sample_lines_not_Nil]
  have len: "length (members sample_result) = 1"
    and row: "members sample_result ! 0 =
       \<lparr> accountName = cell_or_default [js ''Ann'', js ''7''] 0 (js ''N/A''),
         accountNumber = cell_or_default [js ''Ann'', js ''7'']
            (indices [normalize (js ''Name''), normalize (js ''Id''), normalize (js ''Due'')] AccountNumber) (js ''N/A''),
         nextDueDate = cell_or_default [js ''Ann'', js ''7''] 2 (js ''N/A''),
         nextDueAmount = cell_or_default [js ''Ann'', js ''7'']
            (indices [normalize (js ''Name''), normalize (js ''Id''), normalize (js ''Due'')] NextDueAmount) (js ''0.00''),
         bps = cell_or_default [js ''Ann'', js ''7'']
            (indices [normalize (js ''Name''), normalize (js ''Id''), normalize (js ''Due'')] Bps) (js ''0.00''),
         overdueAmount = cell_or_default [js ''Ann'', js ''7'']
            (indices [normalize (js ''Name''), normalize (js ''Id''), normalize (js ''Due'')] OverdueAmount) (js ''0.00'') \<rparr>"
    by (simp_all add: sample_lines sample_header sample_rows sample_data_row idx Let_def
        del: indices.simps)
  show ?thesis
    using len by (simp add: parseCSV_sample sample_lines_not_Nil row)
qed

lemma all_dropWhile: "(\<forall>x\<in>set (dropWhile P s). P x) \<longleftrightarrow> (\<forall>x\<in>set s. P x)"
  by (induction s) auto

lemma trim_Nil_iff: "trim s = [] \<longleftrightarrow> list_all is_js_space s"
  by (simp add: trim_def dropWhile_eq_Nil_conv list_all_iff all_dropWhile)

lemma non_empty_line_iff: "non_empty_line line \<longleftrightarrow> \<not> list_all is_js_space line"
  by (simp add: non_empty_line_def trim_Nil_iff)

lemma find_filter_conv:
  "find P xs = (case filter P xs of [] \<Rightarrow> None | x # _ \<Rightarrow> Some x)"
  by (induction xs) simp_all

lemma first_cell_or_na_hd:
  "row \<noteq> [] \<Longrightarrow> first_cell_or_na row = (if hd row = [] then js ''N/A'' else hd row)"
  by (cases row) (simp_all add: first_cell_or_na_def array_get_def or_else_def)

text \<open>
  Claim C7: \<open>sheetUpdateDate\<close> is the first cell of the first line, after the removal
  of one leading byte order mark, that is not made of white space only, whichever row
  becomes the header; it is \<open>N/A\<close> when that cell is empty; and when there is no such
  line the result has no records and the date \<open>N/A\<close>.
\<close>
theorem metadata_from_first_cell:
  assumes "parseCSV text = Inr r"
  shows "(case find (\<lambda>line. \<not> list_all is_js_space line) (split_lines (strip_bom text)) of
            None \<Rightarrow> members r = [] \<and> sheetUpdateDate r = js ''N/A''
          | Some line \<Rightarrow>
              splitRow line \<noteq> []
              \<and> sheetUpdateDate r = (if hd (splitRow line) = [] then js ''N/A''
                                     else hd (splitRow line)))"
proof (cases "allLines_of text")
  case Nil
  then have "find non_empty_line (split_lines (strip_bom text)) = None"
    by (simp add: find_filter_conv allLines_of_def)
  moreover from Nil assms have "r = \<lparr> members = [], sheetUpdateDate = js ''N/A'' \<rparr>"
    by (simp add: parseCSV_empty)
  ultimately show ?thesis by (simp add: non_empty_line_iff [abs_def])
next
  case (Cons l ls)
  then have "find non_empty_line (split_lines (strip_bom text)) = Some l"
    by (simp add: find_filter_conv allLines_of_def)
  moreover from Cons assms parseCSV_nonempty [of "text"]
  have "sheetUpdateDate r = first_cell_or_na (splitRow l)" by auto
  ultimately show ?thesis
    by (simp add: non_empty_line_iff [abs_def] splitRow_not_Nil first_cell_or_na_hd)
qed

theorem metadata_from_first_cell_witness:
  "parseCSV sample_text = Inr sample_result
   \<and> find (\<lambda>line. \<not> list_all is_js_space line) (split_lines (strip_bom sample_text))
       = Some (js ''Name,Id,Due'')
   \<and> hd (splitRow (js ''Name,Id,Due'')) = js ''Name''
   \<and> sheetUpdateDate sample_result = js ''Name''"
proof -
  have "js ''Name'' \<noteq> []" by (simp add: js_def)
  with metadata_from_first_cell [OF parseCSV_sample] show ?thesis
    by (simp add: parseCSV_sample sample_first_line sample_rows)
qed

text \<open>
  Claim C1: for the three lines \<open>2024-05-01 Export\<close>,
  \<open>Member Name,Account No,Due Date,Due Amount\<close> and \<open>Jane Doe,1001,20240615,150.00\<close>
  the header is row 1, \<open>sheetUpdateDate\<close> is \<open>2024-05-01 Export\<close> and there is exactly
  one record: Jane Doe, 1001, 20240615, 150.00, and the defaults 0.00 and 0.00.
\<close>
theorem parseCSV_export_example:
  "headerRowIndex (allLines_of export_text) = 1
   \<and> parseCSV export_text =
       Inr \<lparr> members = [\<lparr> accountName = js ''Jane Doe'', accountNumber = js ''1001'',
                           nextDueDate = js ''20240615'', nextDueAmount = js ''150.00'',
                           bps = js ''0.00'', overdueAmount = js ''0.00'' \<rparr>],
             sheetUpdateDate = js ''2024-05-01 Export'' \<rparr>"
  by (simp add: parseCSV_def Let_def export_lines export_header splitRow_at_def array_get_def
      export_rows export_member export_first)

section \<open>The column mapper\<close>

lemma array_findIndex_none: "\<not> list_ex P xs \<Longrightarrow> array_findIndex P xs = - 1"
  by (simp add: array_findIndex_def findIndex_from_none)

lemma array_findIndex_first: "list_ex P xs \<Longrightarrow> is_first_index P xs (array_findIndex P xs)"
  using findIndex_from_some [of P xs 0] by (auto simp: array_findIndex_def is_first_index_def)

lemma exact_match_iff: "exact_match kList h \<longleftrightarrow> h \<in> strip_non_alnum ` set kList"
  by (auto simp: exact_match_def list_ex_iff)

lemma substring_match_iff:
  "substring_match kList h \<longleftrightarrow> (\<exists>k\<in>strip_non_alnum ` set kList. sublist k h)"
  by (auto simp: substring_match_def list_ex_iff includes_js_sublist)

lemma findIndex_exact:
  assumes "list_ex (exact_match kList) headers"
  shows "findIndex headers kList = array_findIndex (exact_match kList) headers"
    and "is_first_index (exact_match kList) headers (findIndex headers kList)"
proof -
  from array_findIndex_first [OF assms]
  have f: "is_first_index (exact_match kList) headers (array_findIndex (exact_match kList) headers)" .
  then have "array_findIndex (exact_match kList) headers \<noteq> - 1" by (auto simp: is_first_index_def)
  then show "findIndex headers kList = array_findIndex (exact_match kList) headers"
    by (simp add: findIndex_def Let_def)
  with f show "is_first_index (exact_match kList) headers (findIndex headers kList)" by simp
qed

lemma findIndex_no_exact:
  assumes "\<not> list_ex (exact_match kList) headers"
  shows "findIndex headers kList = array_findIndex (substring_match kList) headers"
  using array_findIndex_none [OF assms] by (simp add: findIndex_def Let_def)

lemma indices_found:
  assumes "0 \<le> findIndex headers (keywords_of f)"
  shows "indices headers f = findIndex headers (keywords_of f)"
  using assms by (cases f) auto

lemma indices_not_found:
  assumes "findIndex headers (keywords_of f) = - 1"
  shows "indices headers f = (case f of AccountName \<Rightarrow> 0 | AccountNumber \<Rightarrow> 1 | _ \<Rightarrow> - 1)"
  using assms by (cases f) auto

text \<open>
  Claim C5: for every header row and each of the six fields, the mapped index is
  the index of the first header cell whose normalisation equals a normalised keyword of the
  field; when there is none, the index of the first cell whose normalisation contains a
  normalised keyword; when there is none either, -1, except that \<open>accountName\<close> falls
  back to column 0 and \<open>accountNumber\<close> to column 1.
\<close>
theorem column_mapper:
  "let hs = map normalize headerRow;
       ks = strip_non_alnum ` set (keywords_of f);
       r = indices hs f
   in if \<exists>h\<in>set hs. h \<in> ks then is_first_index (\<lambda>h. h \<in> ks) hs r
      else if \<exists>h\<in>set hs. \<exists>k\<in>ks. sublist k h then is_first_index (\<lambda>h. \<exists>k\<in>ks. sublist k h) hs r
      else r = (case f of AccountName \<Rightarrow> 0 | AccountNumber \<Rightarrow> 1 | _ \<Rightarrow> - 1)"
proof -
  let ?hs = "map normalize headerRow"
  let ?kl = "keywords_of f"
  let ?ks = "strip_non_alnum ` set ?kl"
  have ex_eq: "exact_match ?kl = (\<lambda>h. h \<in> ?ks)"
    by (rule ext) (rule exact_match_iff)
  have sub_eq: "substring_match ?kl = (\<lambda>h. \<exists>k\<in>?ks. sublist k h)"
    by (rule ext) (rule substring_match_iff)
  consider (exact) "list_ex (exact_match ?kl) ?hs"
    | (sub) "\<not> list_ex (exact_match ?kl) ?hs" "list_ex (substring_match ?kl) ?hs"
    | (none) "\<not> list_ex (exact_match ?kl) ?hs" "\<not> list_ex (substring_match ?kl) ?hs"
    by blast
  then have "if list_ex (exact_match ?kl) ?hs then is_first_index (exact_match ?kl) ?hs (indices ?hs f)
      else if list_ex (substring_match ?kl) ?hs then is_first_index (substring_match ?kl) ?hs (indices ?hs f)
      else indices ?hs f = (case f of AccountName \<Rightarrow> 0 | AccountNumber \<Rightarrow> 1 | _ \<Rightarrow> - 1)"
  proof cases
    case exact
    from findIndex_exact(2) [OF exact]
    have f: "is_first_index (exact_match ?kl) ?hs (findIndex ?hs ?kl)" .
    then have "0 \<le> findIndex ?hs ?kl" by (simp add: is_first_index_def)
    from indices_found [OF this] f exact show ?thesis by simp
  next
    case sub
    from array_findIndex_first [OF sub(2)] findIndex_no_exact [OF sub(1)]
    have f: "is_first_index (substring_match ?kl) ?hs (findIndex ?hs ?kl)" by simp
    then have "0 \<le> findIndex ?hs ?kl" by (simp add: is_first_index_def)
    from indices_found [OF this] f sub show ?thesis by simp
  next
    case none
    from array_findIndex_none [OF none(2)] findIndex_no_exact [OF none(1)]
    have "findIndex ?hs ?kl = - 1" by simp
    from indices_not_found [OF this] none show ?thesis by simp
  qed
  then show ?thesis
    unfolding ex_eq sub_eq by (simp only: Let_def list_ex_iff)
qed

theorem column_mapper_witness:
  "js ''due'' \<in> strip_non_alnum ` set (keywords_of NextDueDate)
   \<and> is_first_index (\<lambda>h. h \<in> strip_non_alnum ` set (keywords_of NextDueDate))
       (map normalize [js ''Name'', js ''Id'', js ''Due''])
       (indices (map normalize [js ''Name'', js ''Id'', js ''Due'']) NextDueDate)
   \<and> indices (map normalize [js ''Name'', js ''Id'', js ''Due'']) NextDueDate = 2"
proof -
  have due: "js ''due'' \<in> strip_non_alnum ` set (keywords_of NextDueDate)"
    using sample_due_exact by (simp only: exact_match_iff)
  then have "\<exists>h\<in>set (map normalize [js ''Name'', js ''Id'', js ''Due'']).
               h \<in> strip_non_alnum ` set (keywords_of NextDueDate)"
    unfolding sample_headers_norm by simp
  with column_mapper [of "[js ''Name'', js ''Id'', js ''Due'']" NextDueDate]
  have "is_first_index (\<lambda>h. h \<in> strip_non_alnum ` set (keywords_of NextDueDate))
       (map normalize [js ''Name'', js ''Id'', js ''Due''])
       (indices (map normalize [js ''Name'', js ''Id'', js ''Due'']) NextDueDate)"
    by (simp only: Let_def if_True)
  with due show ?thesis by (simp only: sample_headers_norm sample_due_index)
qed

section \<open>The header locator\<close>

lemma scan_okD:
  assumes "scan_ok sc n st"
  shows "fst st < n" and "\<forall>j<n. sc j \<le> sc (fst st)" and "\<forall>j<fst st. sc j < sc (fst st)"
  using assms by (auto simp: scan_ok_def)

lemma distinct_all_keywords: "distinct all_keywords"
  by code_simp

lemma keyword_hit_iff:
  "keyword_hit (map normalize cells) k
   \<longleftrightarrow> (\<exists>cell\<in>set cells. sublist (strip_non_alnum k) (normalize cell))"
  by (simp add: keyword_hit_def list_ex_iff includes_js_sublist)

text \<open>
  The keywords are the 41 entries of the six lists, pairwise distinct as written. Two of
  them, \<open>member\<close> and \<open>member#\<close>, have the same normalisation; each is an entry of its
  own and each counts, so a row whose only cell is \<open>member\<close> scores 2.
\<close>

lemma member_scores_two: "row_score (js ''member'') = 2"
  by code_simp

lemma row_score_count: "row_score line = int (distinct_keyword_count line)"
proof -
  have "{k. keyword_hit (map normalize (splitRow line)) k} \<inter> set all_keywords
        = keyword_matches (splitRow line)"
    by (auto simp: keyword_matches_def keyword_hit_iff)
  then show ?thesis
    by (simp add: row_score_length distinct_keyword_count_def
        distinct_length_filter [OF distinct_all_keywords])
qed

text \<open>
  Claim C4: when the text has a non-empty line, the header row is one of the first
  \<open>min(10, number of non-empty lines)\<close> rows, no row of that window has a greater count of
  distinct matching keywords, and every earlier row has a strictly smaller one (the earliest
  maximum wins); and the scan returns index 0 whenever no row scores above the sentinel -1.
\<close>
theorem header_row_choice:
  assumes "allLines_of text \<noteq> []"
  shows "(let allLines = allLines_of text;
              n = min 10 (length allLines);
              h = headerRowIndex allLines
          in h < n
             \<and> (\<forall>j<n. distinct_keyword_count (allLines ! j) \<le> distinct_keyword_count (allLines ! h))
             \<and> (\<forall>j<h. distinct_keyword_count (allLines ! j) < distinct_keyword_count (allLines ! h)))
         \<and> (\<forall>sc m. (\<forall>i<m. sc i \<le> - 1) \<longrightarrow> fst (header_scan sc m) = 0)"
proof -
  let ?ls = "allLines_of text"
  let ?sc = "\<lambda>i. row_score (?ls ! i)"
  let ?n = "min (length ?ls) 10"
  let ?h = "headerRowIndex ?ls"
  from headerRowIndex_ok [OF assms]
  have ok: "scan_ok ?sc ?n (header_scan ?sc ?n)" .
  have h: "fst (header_scan ?sc ?n) = ?h" by (simp add: headerRowIndex_def)
  have lt: "?h < ?n" and le: "\<forall>j<?n. ?sc j \<le> ?sc ?h" and less: "\<forall>j<?h. ?sc j < ?sc ?h"
    using scan_okD [OF ok] unfolding h by blast+
  have n: "min 10 (length ?ls) = ?n" by simp
  have "\<forall>j<?n. distinct_keyword_count (?ls ! j) \<le> distinct_keyword_count (?ls ! ?h)"
    using le by (simp add: row_score_count)
  moreover have "\<forall>j<?h. distinct_keyword_count (?ls ! j) < distinct_keyword_count (?ls ! ?h)"
    using less by (simp add: row_score_count)
  moreover have "\<forall>sc m. (\<forall>i<m. sc i \<le> - 1) \<longrightarrow> fst (header_scan sc m) = 0"
    by (simp add: header_scan_none)
  ultimately show ?thesis using lt unfolding Let_def n by blast
qed

theorem header_row_choice_witness:
  "allLines_of export_text \<noteq> []
   \<and> headerRowIndex (allLines_of export_text) = 1
   \<and> distinct_keyword_count (js ''2024-05-01 Export'')
       < distinct_keyword_count (js ''Member Name,Account No,Due Date,Due Amount'')
   \<and> distinct_keyword_count (js ''Jane Doe,1001,20240615,150.00'')
       \<le> distinct_keyword_count (js ''Member Name,Account No,Due Date,Due Amount'')"
proof -
  let ?ls = "[js ''2024-05-01 Export'', js ''Member Name,Account No,Due Date,Due Amount'',
              js ''Jane Doe,1001,20240615,150.00'']"
  from header_row_choice [OF export_lines_not_Nil]
  have le: "\<forall>j<3. distinct_keyword_count (?ls ! j) \<le> distinct_keyword_count (?ls ! 1)"
    and less: "\<forall>j<1. distinct_keyword_count (?ls ! j) < distinct_keyword_count (?ls ! 1)"
    by (simp_all add: Let_def export_lines export_header)
  from le [rule_format, of 2]
  have "distinct_keyword_count (?ls ! 2) \<le> distinct_keyword_count (?ls ! 1)" by simp
  moreover from less [rule_format, of 0]
  have "distinct_keyword_count (?ls ! 0) < distinct_keyword_count (?ls ! 1)" by simp
  ultimately show ?thesis by (simp add: export_lines export_header)
qed

section \<open>Properties of the formatters\<close>

lemma length8_elems:
  "length ds = 8 \<Longrightarrow> ds = [ds ! 0, ds ! 1, ds ! 2, ds ! 3, ds ! 4, ds ! 5, ds ! 6, ds ! 7]"
  by (auto simp: numeral_eq_Suc length_Suc_conv)

lemma substring_date:
  assumes "length ds = 8"
  shows "substring ds 4 6 @ js ''/'' @ substring ds 6 8 @ js ''/'' @ substring ds 0 4
         = [ds ! 4, ds ! 5] @ js ''/'' @ [ds ! 6, ds ! 7] @ js ''/'' @ [ds ! 0, ds ! 1, ds ! 2, ds ! 3]"
proof -
  from assms obtain a b c d e f g h where "ds = [a, b, c, d, e, f, g, h]"
    by (auto simp: numeral_eq_Suc length_Suc_conv)
  then show ?thesis by (simp add: substring_def)
qed

lemma formatDate_examples:
  "formatDate (js ''20240615'') = js ''06/15/2024''"
  "formatDate (js ''N/A'') = js ''N/A''"
  "formatDate (js '''') = js ''N/A''"
  "formatDate (js ''June 2024'') = js ''June 2024''"
  by code_simp+

text \<open>
  Claim C8: \<open>formatDate\<close> returns \<open>N/A\<close> for the empty string, a string of white
  space only and the string \<open>N/A\<close>; otherwise, when exactly eight digits remain after the
  removal of every other character, it returns them as MM/DD/YYYY, read as YYYYMMDD; every
  other input is returned unchanged. In particular \<open>20240615\<close> gives \<open>06/15/2024\<close>,
  \<open>N/A\<close> and the empty string give \<open>N/A\<close>, and \<open>June 2024\<close> is unchanged.
\<close>
theorem formatDate_cases:
  "formatDate s =
     (if s = [] \<or> list_all is_js_space s \<or> s = js ''N/A'' then js ''N/A''
      else if length (filter is_digit s) = 8
           then (let ds = filter is_digit s
                 in [ds ! 4, ds ! 5] @ js ''/'' @ [ds ! 6, ds ! 7] @ js ''/''
                    @ [ds ! 0, ds ! 1, ds ! 2, ds ! 3])
           else s)
   \<and> formatDate (js ''20240615'') = js ''06/15/2024''
   \<and> formatDate (js ''N/A'') = js ''N/A''
   \<and> formatDate (js '''') = js ''N/A''
   \<and> formatDate (js ''June 2024'') = js ''June 2024''"
proof -
  have "test_d8 (filter is_digit s)" if "length (filter is_digit s) = 8"
    using that by (simp add: test_d8_def list_all_iff)
  then have "formatDate s =
     (if s = [] \<or> list_all is_js_space s \<or> s = js ''N/A'' then js ''N/A''
      else if length (filter is_digit s) = 8
           then (let ds = filter is_digit s
                 in [ds ! 4, ds ! 5] @ js ''/'' @ [ds ! 6, ds ! 7] @ js ''/''
                    @ [ds ! 0, ds ! 1, ds ! 2, ds ! 3])
           else s)"
    using substring_date [of "filter is_digit s"]
    by (auto simp: formatDate_def Let_def trim_Nil_iff)
  then show ?thesis using formatDate_examples by blast
qed

lemma abc_unparseable: "parseFloat (strip_non_numeric (js ''abc'')) = NaN"
  by code_simp

text \<open>
  Claim C9: for every string that \<open>parseFloat\<close> cannot read as a number once
  everything but digits, dots and minus signs is removed, \<open>formatPeso\<close> returns the peso
  sign followed by \<open>0.00\<close>, whatever the number formatter is; \<open>abc\<close> is such a string.
\<close>
theorem formatPeso_unparseable:
  "(isNaN (parseFloat (strip_non_numeric s)) \<longrightarrow> formatPeso fmt (Str s) = 0x20B1 # js ''0.00'')
   \<and> isNaN (parseFloat (strip_non_numeric (js ''abc'')))
   \<and> formatPeso fmt (Str (js ''abc'')) = 0x20B1 # js ''0.00''"
  by (simp add: formatPeso_def Let_def peso_zero_def peso_sign_def abc_unparseable isNaN_def)

lemma dash_unparseable: "isNaN (parseFloat (strip_non_numeric (js ''n/a - .'')))"
  by code_simp

theorem formatPeso_unparseable_witness:
  "isNaN (parseFloat (strip_non_numeric (js ''n/a - .'')))
   \<and> formatPeso (\<lambda>n. []) (Str (js ''n/a - .'')) = 0x20B1 # js ''0.00''"
  using formatPeso_unparseable [of "js ''n/a - .''" "\<lambda>n. []"] dash_unparseable by blast

end
